theory Spec2Isabelle
  imports Main "HOL-Library.Sublist"
begin

section \<open>Python values used by app.py\<close>

text \<open>
  A Python \<open>str\<close> is a sequence of Unicode code points; a code point is modelled as a
  natural number, so that the emoji of the user interface and the non-ASCII white space
  that \<open>str.strip\<close> removes are single elements. \<open>u\<close> reads an ASCII literal.
\<close>

type_synonym str = "nat list"

definition u :: "string \<Rightarrow> str" where
  "u s = map of_char s"

text \<open>The exceptions that the modelled statements can raise. \<open>Failure\<close> is an exception
  raised inside an external service call, with its message \<open>str(e)\<close>.\<close>

datatype exn = IndexError | ValueError | TypeError | AttributeError | Failure str

subsection \<open>Methods of \<open>str\<close>\<close>

text \<open>\<open>str_find sep s\<close> locates the leftmost occurrence of \<open>sep\<close> in \<open>s\<close> and returns the
  text before it and the text after it (the outer parts of \<open>s.partition(sep)\<close>), or
  \<open>None\<close> when \<open>sep\<close> does not occur.\<close>

fun str_find :: "'a list \<Rightarrow> 'a list \<Rightarrow> ('a list \<times> 'a list) option" where
  "str_find sep [] = (if sep = [] then Some ([], []) else None)"
| "str_find sep (c # cs) =
     (if prefix sep (c # cs) then Some ([], drop (length sep) (c # cs))
      else (case str_find sep cs of None \<Rightarrow> None | Some (b, a) \<Rightarrow> Some (c # b, a)))"

text \<open>The operator \<open>sep in s\<close>.\<close>

definition str_contains :: "'a list \<Rightarrow> 'a list \<Rightarrow> bool" where
  "str_contains sep s = (str_find sep s \<noteq> None)"

text \<open>\<open>s.split(sep, maxsplit)\<close> for a non-empty separator: the pieces between the
  leftmost non-overlapping occurrences, at most \<open>maxsplit\<close> cuts; \<open>None\<close> is Python's
  default \<open>maxsplit = -1\<close>, no limit.\<close>

function splits :: "'a list \<Rightarrow> nat option \<Rightarrow> 'a list \<Rightarrow> 'a list list" where
  "splits sep m s =
     (if sep = [] \<or> m = Some 0 then [s]
      else (case str_find sep s of
              None \<Rightarrow> [s]
            | Some (b, a) \<Rightarrow> b # splits sep (map_option (\<lambda>n. n - 1) m) a))"
  by pat_completeness auto
termination
proof (relation "measure (\<lambda>(sep, m, s). length s)")
  show "wf (measure (\<lambda>(sep :: 'a list, m :: nat option, s :: 'a list). length s))"
    by simp
next
  fix sep :: "'a list" and m :: "nat option" and s x2 b a
  assume ne: "\<not> (sep = [] \<or> m = Some 0)"
    and f: "str_find sep s = Some x2" and x2: "(b, a) = x2"
  have dec: "str_find sep t = Some (p, q) \<Longrightarrow> length t = length p + length sep + length q"
    for t p q
  proof (induction t arbitrary: p q)
    case Nil
    then show ?case by (simp split: if_splits)
  next
    case (Cons c cs)
    show ?case
    proof (cases "prefix sep (c # cs)")
      case True
      with Cons.prems have "p = []" "q = drop (length sep) (c # cs)" by simp_all
      moreover from True have "length sep \<le> length (c # cs)" by (rule prefix_length_le)
      ultimately show ?thesis by simp
    next
      case False
      with Cons.prems obtain p' where "str_find sep cs = Some (p', q)" "p = c # p'"
        by (auto split: option.splits)
      with Cons.IH show ?thesis by simp
    qed
  qed
  from f x2 have "length s = length b + length sep + length a"
    by (intro dec) simp
  moreover from ne have "0 < length sep" by simp
  ultimately show "((sep, map_option (\<lambda>n. n - 1) m, a), sep, m, s)
      \<in> measure (\<lambda>(sep, m, s). length s)"
    by simp
qed

declare splits.simps [simp del]

text \<open>\<open>str.split\<close> raises \<open>ValueError\<close> for an empty separator.\<close>

definition str_split :: "'a list \<Rightarrow> nat option \<Rightarrow> 'a list \<Rightarrow> exn + 'a list list" where
  "str_split sep m s = (if sep = [] then Inl ValueError else Inr (splits sep m s))"

text \<open>Indexing \<open>xs[i]\<close> with a non-negative index raises \<open>IndexError\<close> out of range.\<close>

definition index :: "'a list \<Rightarrow> nat \<Rightarrow> exn + 'a" where
  "index xs i = (if i < length xs then Inr (xs ! i) else Inl IndexError)"

text \<open>The assignment \<open>a, b = xs\<close> raises \<open>ValueError\<close> unless \<open>xs\<close> has two elements.\<close>

fun unpack2 :: "'a list \<Rightarrow> exn + ('a \<times> 'a)" where
  "unpack2 [a, b] = Inr (a, b)"
| "unpack2 _ = Inl ValueError"

text \<open>\<open>sep.join(xs)\<close>.\<close>

fun join :: "'a list \<Rightarrow> 'a list list \<Rightarrow> 'a list" where
  "join sep [] = []"
| "join sep [x] = x"
| "join sep (x # y # ys) = x @ sep @ join sep (y # ys)"

text \<open>\<open>s.replace(old, new)\<close>: every non-overlapping occurrence of \<open>old\<close>, from the left,
  becomes \<open>new\<close>; an empty \<open>old\<close> matches before every character and at the end.\<close>

definition replace :: "'a list \<Rightarrow> 'a list \<Rightarrow> 'a list \<Rightarrow> 'a list" where
  "replace old new s =
     (if old = [] then new @ concat (map (\<lambda>c. c # new) s)
      else join new (splits old None s))"

text \<open>The code points for which \<open>str.isspace\<close> holds; \<open>s.strip()\<close> removes them from
  both ends.\<close>

definition isspace :: "nat \<Rightarrow> bool" where
  "isspace c =
     ((9 \<le> c \<and> c \<le> 13) \<or> (28 \<le> c \<and> c \<le> 32) \<or> c = 133 \<or> c = 160 \<or> c = 5760
      \<or> (8192 \<le> c \<and> c \<le> 8202) \<or> c = 8232 \<or> c = 8233 \<or> c = 8239 \<or> c = 8287
      \<or> c = 12288)"

definition strip :: "str \<Rightarrow> str" where
  "strip s = rev (dropWhile isspace (rev (dropWhile isspace s)))"

section \<open>The response parser (Patient Kiosk, tab 1)\<close>

text \<open>The line feed and the asterisk of line 226.\<close>

definition LF :: str where
  "LF = [10]"

definition STAR :: str where
  "STAR = [42]"

text \<open>Lines 217 to 223: the three fields start at their defaults; each tuple assignment is
  guarded by the presence of the marker it splits at.\<close>

definition parse_fields :: "str \<Rightarrow> exn + (str \<times> str \<times> str)" where
  "parse_fields text =
     (let summary = u ''Report Analyzed.'';
          specialist = u ''General Physician'';
          advice = u ''Consultation recommended.''
      in if str_contains (u ''SUMMARY:'') text then
           (case str_split (u ''SUMMARY:'') None text of Inl e \<Rightarrow> Inl e
            | Inr pieces \<Rightarrow>
           (case index pieces 1 of Inl e \<Rightarrow> Inl e
            | Inr parts \<Rightarrow>
              if str_contains (u ''SPECIALIST:'') parts then
                (case str_split (u ''SPECIALIST:'') (Some 1) parts of Inl e \<Rightarrow> Inl e
                 | Inr sr \<Rightarrow>
                (case unpack2 sr of Inl e \<Rightarrow> Inl e
                 | Inr (summary, rest) \<Rightarrow>
                   if str_contains (u ''ADVICE:'') rest then
                     (case str_split (u ''ADVICE:'') (Some 1) rest of Inl e \<Rightarrow> Inl e
                      | Inr sa \<Rightarrow>
                     (case unpack2 sa of Inl e \<Rightarrow> Inl e
                      | Inr (specialist, advice) \<Rightarrow> Inr (summary, specialist, advice)))
                   else Inr (summary, specialist, advice)))
              else Inr (summary, specialist, advice)))
         else Inr (summary, specialist, advice))"

text \<open>Line 226: \<open>specialist.strip().split('\n')[0].replace("*", "")\<close>.\<close>

definition normalize_specialist :: "str \<Rightarrow> exn + str" where
  "normalize_specialist specialist =
     (case str_split LF None (strip specialist) of Inl e \<Rightarrow> Inl e
      | Inr ls \<Rightarrow>
     (case index ls 0 of Inl e \<Rightarrow> Inl e
      | Inr l \<Rightarrow> Inr (replace STAR [] l)))"

text \<open>The parser's result as the session keeps it (lines 225 and 226): the summary as
  parsed, the specialist normalised, and the advice as line 240 passes it on.\<close>

definition response_parser :: "str \<Rightarrow> exn + (str \<times> str \<times> str)" where
  "response_parser text =
     (case parse_fields text of Inl e \<Rightarrow> Inl e
      | Inr (summary, specialist, advice) \<Rightarrow>
     (case normalize_specialist specialist of Inl e \<Rightarrow> Inl e
      | Inr sp \<Rightarrow> Inr (summary, sp, advice)))"

section \<open>Decimal rendering\<close>

text \<open>\<open>str(n)\<close> for a non-negative integer, and \<open>%02d\<close>-style zero padding.\<close>

function str_nat :: "nat \<Rightarrow> str" where
  "str_nat n = (if n < 10 then [48 + n] else str_nat (n div 10) @ [48 + n mod 10])"
  by pat_completeness auto
termination
  by (relation "measure (\<lambda>n. n)") auto

declare str_nat.simps [simp del]

definition zfill :: "nat \<Rightarrow> str \<Rightarrow> str" where
  "zfill w s = replicate (w - length s) 48 @ s"

text \<open>The values of \<open>st.date_input\<close> and \<open>st.time_input\<close>, and their \<open>str()\<close>.\<close>

record date =
  year :: nat
  month :: nat
  day :: nat

record time =
  hour :: nat
  minute :: nat
  second :: nat

definition str_date :: "date \<Rightarrow> str" where
  "str_date d =
     zfill 4 (str_nat (year d)) @ u ''-'' @ zfill 2 (str_nat (month d)) @ u ''-''
       @ zfill 2 (str_nat (day d))"

definition str_time :: "time \<Rightarrow> str" where
  "str_time t =
     zfill 2 (str_nat (hour t)) @ u '':'' @ zfill 2 (str_nat (minute t)) @ u '':''
       @ zfill 2 (str_nat (second t))"

section \<open>Session, external services and effects\<close>

text \<open>The keys of \<open>st.session_state\<close>. \<open>authenticated = None\<close> is the key not yet in the
  session; the four kiosk keys hold what lines 191 to 194 give them at first.\<close>

record session =
  authenticated :: "bool option"
  analysis_result :: "str option"
  specialist_type :: str
  user_city :: str
  sources_clean :: "str option"

definition initial_session :: session where
  "initial_session =
     \<lparr>authenticated = None, analysis_result = None,
      specialist_type = u ''General Physician'', user_city = u ''Hyderabad'',
      sources_clean = None\<rparr>"

text \<open>The document added to the \<open>appointments\<close> collection (lines 289 to 295).\<close>

record booking_record =
  patient_email :: str
  specialist :: str
  doctor_name :: str
  status :: str
  timestamp :: nat

text \<open>The event of lines 70 to 78. Its end, thirty minutes after the start, and the
  ISO rendering of both are left out of the model.\<close>

record calendar_event =
  ev_summary :: str
  ev_location :: str
  ev_description :: str
  ev_start :: "date \<times> time"
  ev_attendee :: "str option"

text \<open>An uploaded report: its file name and its titled sections in page order.\<close>

record report =
  filename :: str
  sections :: "(str \<times> str) list"

text \<open>The stores outside the process: the Firestore collections \<open>appointments\<close> and
  \<open>reports\<close> (the latter only counted), the shared calendar and the storage bucket.\<close>

record world =
  appointments :: "booking_record list"
  reports :: nat
  calendar :: "calendar_event list"
  bucket :: "report list"

text \<open>The grounding metadata of a model response. An attribute access either raises
  (\<open>Absent\<close>) or yields a value.\<close>

datatype 'a attr = Absent | Present 'a

record web_source =
  title :: "str attr"
  uri :: "str attr"

record chunk =
  web :: "web_source option attr"

text \<open>A candidate: the texts of its content parts, and what
  \<open>.grounding_metadata.grounding_chunks\<close> gives (\<open>Present []\<close> for an empty or null
  sequence).\<close>

record candidate =
  content_parts :: "str attr list"
  grounding_chunks :: "chunk list attr"

record response =
  text_attr :: "exn + str"
  candidates :: "candidate list"

text \<open>What the external calls of one script run do: the clock, the vault, the model, the
  calendar API (the exception it raises, or the \<open>htmlLink\<close> of the inserted event), the
  Firestore \<open>add\<close> and the building and upload of a PDF (the exception raised, if any).\<close>

record env =
  now :: nat
  ai_outcome :: "exn + response"
  calendar_outcome :: "exn + str option"
  db_outcome :: "exn option"
  pdf_outcome :: "exn option"

text \<open>What a script run shows and logs. \<open>ErrorOf e\<close> is \<open>st.error(f"Error: {e}")\<close>,
  \<open>LogErrorOf e\<close> is \<open>logger.error(f"Calendar API Error: {e}")\<close>, \<open>CalendarLink\<close> is
  the markdown of line 287 around the link that \<open>generate_google_calendar_link\<close> builds
  from these four arguments (the link's text is not modelled), \<open>DownloadButton\<close> carries
  its label and the path of the opened file. The header, the recommendation and the
  two directory links of tab 2 (lines 247 to 263) are rendering only and not recorded.\<close>

datatype effect =
    Error str
  | ErrorOf exn
  | LogErrorOf exn
  | Warning str
  | Success str
  | Info str
  | Markdown str
  | Metric str nat
  | Rerun
  | BookingForm
  | CalendarLink str str date time
  | DownloadButton str str

section \<open>Secrets and the admin portal\<close>

definition PROJECT_ID :: str where
  "PROJECT_ID = u ''bnb-marathon-2025-478707''"

definition BUCKET_NAME :: str where
  "BUCKET_NAME = PROJECT_ID @ u ''-reports''"

text \<open>\<open>get_secret\<close> (lines 27 to 35). The vault maps a resource name to the decoded
  payload or to the exception that the access or the decoding raises.\<close>

definition get_secret :: "(str \<Rightarrow> exn + str) \<Rightarrow> str \<Rightarrow> str option \<times> effect list" where
  "get_secret vault secret_id =
     (let name = u ''projects/'' @ PROJECT_ID @ u ''/secrets/'' @ secret_id
                   @ u ''/versions/latest''
      in case vault name of
           Inr payload \<Rightarrow> (Some payload, [])
         | Inl e \<Rightarrow>
             (None, [Error (u ''Security Error: Could not fetch '' @ secret_id
                            @ u ''. Check IAM permissions.'')]))"

text \<open>\<open>check_auth\<close> (lines 110 to 112).\<close>

definition check_auth :: "session \<Rightarrow> bool \<times> session" where
  "check_auth s =
     (case authenticated s of
        None \<Rightarrow> (False, s\<lparr>authenticated := Some False\<rparr>)
      | Some b \<Rightarrow> (b, s))"

text \<open>\<open>login_screen\<close> (lines 114 to 123): \<open>pwd\<close> is the text input, always a string;
  \<open>clicked\<close> is the Authenticate button; the secret is a string or \<open>None\<close>.\<close>

definition login_screen :: "str option \<Rightarrow> str \<Rightarrow> bool \<Rightarrow> session \<Rightarrow> session \<times> effect list" where
  "login_screen ADMIN_PASSWORD pwd clicked s =
     (let heading = Markdown (u ''### '' @ [128737, 65039] @ u '' Admin Portal Access'')
      in if clicked then
           (if Some pwd = ADMIN_PASSWORD
            then (s\<lparr>authenticated := Some True\<rparr>, [heading, Rerun])
            else (s, [heading, Error (u ''Access Denied'')]))
         else (s, [heading]))"

definition logout :: "session \<Rightarrow> session \<times> effect list" where
  "logout s = (s\<lparr>authenticated := Some False\<rparr>, [Rerun])"

text \<open>One script run in Admin Dashboard mode (lines 304 to 317).\<close>

record admin_input =
  pwd_input :: str
  authenticate_clicked :: bool
  logout_clicked :: bool
  refresh_clicked :: bool

definition admin_dashboard ::
  "str option \<Rightarrow> admin_input \<Rightarrow> world \<Rightarrow> session \<Rightarrow> session \<times> effect list" where
  "admin_dashboard ADMIN_PASSWORD inp w s =
     (case check_auth s of
        (ok, s1) \<Rightarrow>
          if \<not> ok then login_screen ADMIN_PASSWORD (pwd_input inp) (authenticate_clicked inp) s1
          else if logout_clicked inp then
            (case logout s1 of (s2, es) \<Rightarrow> (s2, Success (u ''Admin Logged In'') # es))
          else if refresh_clicked inp then
            (s1, [Success (u ''Admin Logged In''),
                  if reports w \<noteq> 0 then Metric (u ''Reports Processed'') (reports w)
                  else Info (u ''No data.'')])
          else (s1, [Success (u ''Admin Logged In'')]))"

text \<open>A sequence of admin script runs, one per interaction.\<close>

fun admin_runs :: "str option \<Rightarrow> world \<Rightarrow> admin_input list \<Rightarrow> session \<Rightarrow> session" where
  "admin_runs ADMIN_PASSWORD w [] s = s"
| "admin_runs ADMIN_PASSWORD w (inp # inps) s =
     admin_runs ADMIN_PASSWORD w inps (fst (admin_dashboard ADMIN_PASSWORD inp w s))"

section \<open>Grounding sources (lines 229 to 236)\<close>

text \<open>\<open>response.candidates[0].grounding_metadata.grounding_chunks\<close>.\<close>

definition chunks_of :: "response \<Rightarrow> exn + chunk list" where
  "chunks_of r =
     (case candidates r of
        [] \<Rightarrow> Inl IndexError
      | c # _ \<Rightarrow> (case grounding_chunks c of
                   Absent \<Rightarrow> Inl AttributeError
                 | Present cs \<Rightarrow> Inr cs))"

text \<open>The \<open>for\<close> loop of lines 233 and 234 from index \<open>i\<close> on, with the variable
  \<open>sources\<close> threaded through: the exception raised, if any, and the value that
  \<open>sources\<close> holds when the loop is left.\<close>

fun format_chunks :: "nat \<Rightarrow> chunk list \<Rightarrow> str \<Rightarrow> exn option \<times> str" where
  "format_chunks i [] sources = (None, sources)"
| "format_chunks i (c # cs) sources =
     (case web c of
        Absent \<Rightarrow> (Some AttributeError, sources)
      | Present None \<Rightarrow> format_chunks (i + 1) cs sources
      | Present (Some w) \<Rightarrow>
          (case title w of
             Absent \<Rightarrow> (Some AttributeError, sources)
           | Present t \<Rightarrow>
               (case uri w of
                  Absent \<Rightarrow> (Some AttributeError, sources)
                | Present l \<Rightarrow>
                    format_chunks (i + 1) cs
                      (sources @ str_nat (i + 1) @ u ''. '' @ t @ u '': '' @ l @ LF))))"

text \<open>The body of the \<open>try\<close>, entered with \<open>sources\<close> at its fallback value.\<close>

definition sources_body :: "response \<Rightarrow> str \<Rightarrow> exn option \<times> str" where
  "sources_body r sources =
     (case chunks_of r of
        Inl e \<Rightarrow> (Some e, sources)
      | Inr cs \<Rightarrow>
          if cs \<noteq> [] then
            (case chunks_of r of
               Inl e \<Rightarrow> (Some e, [])
             | Inr cs' \<Rightarrow> format_chunks 0 cs' [])
          else (None, sources))"

text \<open>The whole statement: \<open>except: pass\<close> swallows whatever the body raises and keeps
  the variable as the body left it. The first component is the exception that leaves
  the statement.\<close>

definition sources_block :: "response \<Rightarrow> exn option \<times> str" where
  "sources_block r =
     (case sources_body r (u ''Verified via Google.'') of
        (Some e, sources) \<Rightarrow> (None, sources)
      | (None, sources) \<Rightarrow> (None, sources))"

section \<open>Report composer and calendar integrator\<close>

text \<open>\<open>encode('latin-1', 'replace').decode('latin-1')\<close>: a code point outside Latin-1
  becomes a question mark.\<close>

definition latin1_replace :: "str \<Rightarrow> str" where
  "latin1_replace s = map (\<lambda>c. if c < 256 then c else 63) s"

text \<open>\<open>create_professional_pdf\<close> (lines 129 to 182). \<open>summary\<close> and \<open>sources\<close> come from
  session keys that may hold \<open>None\<close>, on which \<open>.encode\<close> raises inside the \<open>try\<close>.
  \<open>Inl e\<close> is the returned pair \<open>(None, str(e))\<close>, \<open>Inr (local_path, uri)\<close> the pair of
  a success; on success the document is in the bucket.\<close>

definition create_professional_pdf ::
  "env \<Rightarrow> str option \<Rightarrow> str \<Rightarrow> str option \<Rightarrow> str option \<Rightarrow> world
     \<Rightarrow> (exn + str \<times> str) \<times> world" where
  "create_professional_pdf ev summary doctors sources appt_info w =
     (case summary of
        None \<Rightarrow> (Inl AttributeError, w)
      | Some summary_text \<Rightarrow>
          let body = [(u ''Medical Analysis'', latin1_replace summary_text),
                      (u ''Recommended Specialists'', latin1_replace doctors)];
              appt = (case appt_info of
                        None \<Rightarrow> []
                      | Some a \<Rightarrow> if a \<noteq> [] then [(u ''Appointment Status'', latin1_replace a)]
                                  else [])
          in (case sources of
                None \<Rightarrow> (Inl AttributeError, w)
              | Some sources_text \<Rightarrow>
                  (case pdf_outcome ev of
                     Some e \<Rightarrow> (Inl e, w)
                   | None \<Rightarrow>
                       let name = u ''Report_'' @ str_nat (now ev) @ u ''.pdf'';
                           local_path = u ''/tmp/'' @ name;
                           doc = \<lparr>filename = name,
                                  sections = body @ appt
                                    @ [(u ''Verified Sources'', latin1_replace sources_text)]\<rparr>
                       in (Inr (local_path, u ''gs://'' @ BUCKET_NAME @ u ''/'' @ name),
                           w\<lparr>bucket := bucket w @ [doc]\<rparr>))))"

text \<open>\<open>block_hospital_calendar\<close> (lines 59 to 88): \<open>Inl e\<close> is the returned pair
  \<open>(False, str(e))\<close>, \<open>Inr link\<close> the pair \<open>(True, link)\<close>.\<close>

definition block_hospital_calendar ::
  "env \<Rightarrow> str option \<Rightarrow> str \<Rightarrow> str \<Rightarrow> date \<Rightarrow> time \<Rightarrow> world
     \<Rightarrow> (exn + str option) \<times> world \<times> effect list" where
  "block_hospital_calendar ev MASTER_CALENDAR_ID patient_name doctor_name_arg d t w =
     (let event = \<lparr>ev_summary = u ''BOOKED: '' @ doctor_name_arg @ u '' (Pt: '' @ patient_name
                                   @ u '')'',
                   ev_location = u ''Medi-Scribe Medical Center'',
                   ev_description = u ''Official Appointment.'' @ LF @ LF @ u ''Doctor: ''
                                   @ doctor_name_arg @ LF @ u ''Patient: '' @ patient_name,
                   ev_start = (d, t),
                   ev_attendee = MASTER_CALENDAR_ID\<rparr>
      in case calendar_outcome ev of
           Inr link \<Rightarrow> (Inr link, w\<lparr>calendar := calendar w @ [event]\<rparr>, [])
         | Inl e \<Rightarrow> (Inl e, w, [LogErrorOf e]))"

section \<open>Patient Kiosk\<close>

text \<open>\<open>get_clean_text\<close> (lines 106 to 108).\<close>

fun join_parts :: "str attr list \<Rightarrow> exn + str" where
  "join_parts [] = Inr []"
| "join_parts (Absent # ps) = Inl AttributeError"
| "join_parts (Present t # ps) =
     (case join_parts ps of Inl e \<Rightarrow> Inl e | Inr r \<Rightarrow> Inr (t @ r))"

definition get_clean_text :: "response \<Rightarrow> exn + str" where
  "get_clean_text r =
     (case text_attr r of
        Inr t \<Rightarrow> Inr t
      | Inl _ \<Rightarrow> (case candidates r of
                    [] \<Rightarrow> Inl IndexError
                  | c # _ \<Rightarrow> join_parts (content_parts c)))"

text \<open>Truth value of a session key that holds \<open>None\<close> or a string.\<close>

definition truthy :: "str option \<Rightarrow> bool" where
  "truthy v = (case v of None \<Rightarrow> False | Some s \<Rightarrow> s \<noteq> [])"

text \<open>The body of the Process Record handler (lines 206 to 244), run when a file is
  uploaded and the button pressed. Every exception ends in \<open>st.error\<close>; the session
  keeps the assignments made before it.\<close>

definition process_record :: "env \<Rightarrow> str \<Rightarrow> session \<Rightarrow> world \<Rightarrow> session \<times> world \<times> effect list" where
  "process_record ev city_input s w =
     (case ai_outcome ev of
        Inl e \<Rightarrow> (s, w, [ErrorOf e])
      | Inr resp \<Rightarrow>
     (case get_clean_text resp of
        Inl e \<Rightarrow> (s, w, [ErrorOf e])
      | Inr txt \<Rightarrow>
     (case parse_fields txt of
        Inl e \<Rightarrow> (s, w, [ErrorOf e])
      | Inr (summary, spec, advice) \<Rightarrow>
          let s1 = s\<lparr>analysis_result := Some summary\<rparr>
          in (case normalize_specialist spec of
                Inl e \<Rightarrow> (s1, w, [ErrorOf e])
              | Inr sp \<Rightarrow>
                  let s2 = s1\<lparr>specialist_type := sp, user_city := city_input\<rparr>;
                      sources = snd (sources_block resp);
                      s3 = s2\<lparr>sources_clean := Some sources\<rparr>;
                      shown = [Success (u ''Analysis Complete. Recommended: '' @ spec),
                               Markdown summary]
                  in (case create_professional_pdf ev (Some summary) advice (Some sources)
                             None w of
                        (Inl e, w') \<Rightarrow> (s3, w', shown)
                      | (Inr (path, link), w') \<Rightarrow>
                          (s3, w', shown @ [DownloadButton
                             ([11015, 65039] @ u '' Download Report'') path]))))))"

definition tab1 ::
  "env \<Rightarrow> bool \<Rightarrow> bool \<Rightarrow> str \<Rightarrow> session \<Rightarrow> world \<Rightarrow> session \<times> world \<times> effect list" where
  "tab1 ev uploaded_file clicked city_input s w =
     (if uploaded_file \<and> clicked then process_record ev city_input s w else (s, w, []))"

text \<open>The booking form's values (lines 267 to 275).\<close>

record form =
  submitted :: bool
  p_email :: str
  doc_name :: str
  appt_date :: date
  appt_time :: time

text \<open>The submit handler (lines 277 to 301). Nothing here is inside a \<open>try\<close>: the third
  component is the exception that escapes the script run, if any. Opening the file
  that the composer has just written is taken to succeed; \<open>open(None, "rb")\<close> raises
  \<open>TypeError\<close>.\<close>

definition booking_submit ::
  "env \<Rightarrow> str option \<Rightarrow> session \<Rightarrow> form \<Rightarrow> world \<Rightarrow> world \<times> effect list \<times> exn option" where
  "booking_submit ev MASTER_CALENDAR_ID s f w =
     (if p_email f \<noteq> [] \<and> doc_name f \<noteq> [] then
        (case block_hospital_calendar ev MASTER_CALENDAR_ID (p_email f) (doc_name f)
                (appt_date f) (appt_time f) w of
           (result, w1, logged) \<Rightarrow>
             let shown = logged
                   @ [Success ([9989] @ u '' Slot Blocked for '' @ doc_name f @ u ''!''),
                      CalendarLink (p_email f) (doc_name f) (appt_date f) (appt_time f)]
             in (case db_outcome ev of
                   Some e \<Rightarrow> (w1, shown, Some e)
                 | None \<Rightarrow>
                     let w2 = w1\<lparr>appointments := appointments w1 @
                                 [\<lparr>patient_email = p_email f,
                                   specialist = specialist_type s,
                                   doctor_name = doc_name f,
                                   status = u ''Confirmed'',
                                   timestamp = now ev\<rparr>]\<rparr>;
                         details = u ''Email: '' @ p_email f @ LF @ u ''Doc: '' @ doc_name f @ LF
                                   @ u ''Date: '' @ str_date (appt_date f) @ u '' ''
                                   @ str_time (appt_time f) @ LF @ u ''Status: Confirmed''
                     in (case create_professional_pdf ev (analysis_result s) details
                                (sources_clean s) (Some details) w2 of
                           (Inl e, w3) \<Rightarrow> (w3, shown, Some TypeError)
                         | (Inr (path, link), w3) \<Rightarrow>
                             (w3, shown @ [DownloadButton
                                ([11015, 65039] @ u '' Download Booking Pass'') path], None))))
      else (w, [Warning (u ''Fill details.'')], None))"

text \<open>Tab 2 (lines 246 to 302): the form and its handler exist only behind the gate on
  \<open>analysis_result\<close>.\<close>

definition tab2 ::
  "env \<Rightarrow> str option \<Rightarrow> session \<Rightarrow> form \<Rightarrow> world \<Rightarrow> world \<times> effect list \<times> exn option" where
  "tab2 ev MASTER_CALENDAR_ID s f w =
     (if truthy (analysis_result s) then
        (if submitted f then
           (case booking_submit ev MASTER_CALENDAR_ID s f w of
              (w', shown, raised) \<Rightarrow> (w', BookingForm # shown, raised))
         else (w, [BookingForm], None))
      else (w, [Warning (u ''Analyze report first.'')], None))"

section \<open>Sample inputs\<close>

text \<open>A vault that refuses every access.\<close>

definition failing_vault :: "str \<Rightarrow> exn + str" where
  "failing_vault name = Inl (Failure (u ''permission denied''))"

text \<open>A session that holds an analysis, a filled booking form, an empty world, and
  two environments: in the first only the calendar API fails, in the second only the
  PDF upload.\<close>

definition analysed_session :: session where
  "analysed_session =
     \<lparr>authenticated = None, analysis_result = Some (u '' Mild fracture ''),
      specialist_type = u ''Orthopedist'', user_city = u ''Hyderabad'',
      sources_clean = Some (u ''Verified via Google.'')\<rparr>"

definition filled_form :: form where
  "filled_form =
     \<lparr>submitted = True, p_email = u ''a@x.com'', doc_name = u ''Dr. Rao'',
      appt_date = \<lparr>year = 2025, month = 6, day = 1\<rparr>,
      appt_time = \<lparr>hour = 10, minute = 0, second = 0\<rparr>\<rparr>"

definition empty_world :: world where
  "empty_world = \<lparr>appointments = [], reports = 0, calendar = [], bucket = []\<rparr>"

definition calendar_down :: env where
  "calendar_down =
     \<lparr>now = 1748750400, ai_outcome = Inl (Failure (u ''unused'')),
      calendar_outcome = Inl (Failure (u ''calendar unavailable'')),
      db_outcome = None, pdf_outcome = None\<rparr>"

definition upload_down :: env where
  "upload_down =
     \<lparr>now = 1748750400,
      ai_outcome = Inr \<lparr>text_attr = Inr (u ''SUMMARY: Mild fracture SPECIALIST: Orthopedist ADVICE: See a doctor''),
                        candidates = []\<rparr>,
      calendar_outcome = Inr None,
      db_outcome = None, pdf_outcome = Some (Failure (u ''upload failed''))\<rparr>"

text \<open>A response whose only grounding chunk has no \<open>web\<close> attribute, and one whose second
  chunk lacks it.\<close>

definition malformed_chunk_response :: response where
  "malformed_chunk_response =
     \<lparr>text_attr = Inr [],
      candidates = [\<lparr>content_parts = [], grounding_chunks = Present [\<lparr>web = Absent\<rparr>]\<rparr>]\<rparr>"

definition half_formatted_response :: response where
  "half_formatted_response =
     \<lparr>text_attr = Inr [],
      candidates =
        [\<lparr>content_parts = [],
          grounding_chunks =
            Present [\<lparr>web = Present (Some \<lparr>title = Present (u ''WHO''),
                                                uri = Present (u ''https://who.int'')\<rparr>)\<rparr>,
                     \<lparr>web = Absent\<rparr>]\<rparr>]\<rparr>"

section \<open>Facts about the string methods\<close>

lemma str_find_Some: "str_find sep s = Some (b, a) \<Longrightarrow> s = b @ sep @ a"
proof (induction s arbitrary: b)
  case Nil
  then show ?case by (simp split: if_splits)
next
  case (Cons c cs)
  show ?case
  proof (cases "prefix sep (c # cs)")
    case True
    then obtain r where r: "c # cs = sep @ r" by (auto simp: prefix_def)
    from True Cons.prems have "b = []" "a = drop (length sep) (c # cs)" by simp_all
    with r show ?thesis by simp
  next
    case False
    with Cons.prems obtain b' where "str_find sep cs = Some (b', a)" "b = c # b'"
      by (auto split: option.splits)
    with Cons.IH show ?thesis by simp
  qed
qed

lemma str_find_append: "str_find sep (b @ sep @ a) \<noteq> None"
proof (induction b)
  case Nil
  have "prefix sep (sep @ a)" by simp
  then show ?case by (cases "sep @ a") (auto simp del: prefix_code)
next
  case (Cons c b)
  then show ?case by (auto split: option.splits)
qed

lemma str_contains_sublist: "str_contains sep s \<longleftrightarrow> sublist sep s"
proof
  assume "str_contains sep s"
  then obtain b a where "str_find sep s = Some (b, a)"
    by (auto simp: str_contains_def)
  then have "s = b @ sep @ a" by (rule str_find_Some)
  then show "sublist sep s" by (auto simp: sublist_def)
next
  assume "sublist sep s"
  then obtain b a where "s = b @ sep @ a" by (auto simp: sublist_def)
  then show "str_contains sep s" by (simp add: str_contains_def str_find_append)
qed

lemma splits_absent: "\<not> str_contains sep s \<Longrightarrow> splits sep m s = [s]"
proof -
  assume "\<not> str_contains sep s"
  then have "str_find sep s = None" by (cases "str_find sep s") (auto simp: str_contains_def)
  then show ?thesis by (subst splits.simps) simp
qed

lemma splits_once:
  "sep \<noteq> [] \<Longrightarrow> str_find sep s = Some (b, a) \<Longrightarrow> splits sep (Some (Suc 0)) s = [b, a]"
  by (subst splits.simps, simp, subst splits.simps, simp)

lemma splits_cut:
  "sep \<noteq> [] \<Longrightarrow> str_find sep s = Some (b, a) \<Longrightarrow> splits sep None s = b # splits sep None a"
  by (subst splits.simps) simp

text \<open>A separator whose last character occurs nowhere else in it cannot overlap itself.\<close>

lemma prefix_straddle:
  assumes ne: "sep \<noteq> []" and last: "last sep \<notin> set (butlast sep)"
    and p: "prefix sep (P @ sep @ R)" and P: "P \<noteq> []"
  shows "prefix sep P"
proof (rule ccontr)
  assume np: "\<not> prefix sep P"
  let ?n = "length sep" and ?k = "length P"
  have kn: "?k < ?n"
  proof (rule ccontr)
    assume "\<not> ?k < ?n"
    then have "?n \<le> ?k" by simp
    with p have "prefix sep P" by (auto simp: prefix_def append_eq_append_conv2 dest: arg_cong[where f=length])
    with np show False by simp
  qed
  from p obtain r where r: "P @ sep @ R = sep @ r" by (auto simp: prefix_def)
  have ge: "\<not> ?n - 1 < ?k" and lt': "?n - 1 - ?k < ?n" using kn by arith+
  have "(P @ sep @ R) ! (?n - 1) = sep ! (?n - 1 - ?k)"
    using ge lt' by (simp add: nth_append)
  moreover have "(sep @ r) ! (?n - 1) = sep ! (?n - 1)"
    using ne by (simp add: nth_append)
  ultimately have eq: "sep ! (?n - 1) = sep ! (?n - 1 - ?k)" using r by simp
  have lt: "?n - 1 - ?k < ?n - 1" using kn P by (cases P) auto
  have "last sep = sep ! (?n - 1)" using ne by (simp add: last_conv_nth)
  also have "\<dots> = butlast sep ! (?n - 1 - ?k)" using eq lt by (simp add: nth_butlast)
  also have "\<dots> \<in> set (butlast sep)" using lt by simp
  finally show False using last by simp
qed

lemma str_find_first:
  assumes ne: "sep \<noteq> []" and last: "last sep \<notin> set (butlast sep)"
  shows "\<not> str_contains sep P \<Longrightarrow> str_find sep (P @ sep @ R) = Some (P, R)"
proof (induction P)
  case Nil
  from ne obtain c cs where eq: "sep @ R = c # cs" by (cases "sep @ R") auto
  have "prefix sep (c # cs)" unfolding eq[symmetric] by simp
  then have "str_find sep (c # cs) = Some ([], drop (length sep) (c # cs))" by simp
  moreover have "drop (length sep) (c # cs) = R" unfolding eq[symmetric] by simp
  ultimately show ?case by (simp add: eq)
next
  case (Cons c P)
  from Cons.prems have np: "\<not> prefix sep (c # P)" and nc: "\<not> str_contains sep P"
    by (auto simp: str_contains_def split: if_splits option.splits)
  have "\<not> prefix sep ((c # P) @ sep @ R)"
    using prefix_straddle[OF ne last, of "c # P" R] np by blast
  with Cons.IH[OF nc] show ?case by simp
qed

lemma dropWhile_fix: "xs = [] \<or> \<not> P (hd xs) \<Longrightarrow> dropWhile P xs = xs"
  by (cases xs) auto

lemma strip_ends:
  "strip s = [] \<or> (\<not> isspace (hd (strip s)) \<and> \<not> isspace (last (strip s)))"
proof -
  let ?t = "dropWhile isspace s"
  let ?w = "dropWhile isspace (rev ?t)"
  show ?thesis
  proof (cases "?w = []")
    case True
    then show ?thesis by (simp add: strip_def)
  next
    case False
    then have hw: "\<not> isspace (hd ?w)" by (rule hd_dropWhile)
    have tne: "?t \<noteq> []"
    proof
      assume "?t = []"
      then have "?w = []" by (simp only: rev.simps dropWhile.simps)
      with False show False by simp
    qed
    then have ht: "\<not> isspace (hd ?t)" by (rule hd_dropWhile)
    obtain p where p: "rev ?t = p @ ?w"
      by (metis takeWhile_dropWhile_id)
    have "last (p @ ?w) = last ?w" using False by simp
    then have "last ?w = last (rev ?t)" by (simp only: p[symmetric])
    also have "\<dots> = hd ?t" using tne by (simp add: last_rev)
    finally have "last ?w = hd ?t" .
    with ht hw False show ?thesis
      by (simp add: strip_def hd_rev last_rev)
  qed
qed

lemma strip_fix: "s = [] \<or> (\<not> isspace (hd s) \<and> \<not> isspace (last s)) \<Longrightarrow> strip s = s"
proof (cases "s = []")
  case True
  then show ?thesis by (simp add: strip_def)
next
  case False
  assume "s = [] \<or> (\<not> isspace (hd s) \<and> \<not> isspace (last s))"
  with False have h: "\<not> isspace (hd s)" and l: "\<not> isspace (last s)" by simp_all
  from False h have 1: "dropWhile isspace s = s" by (simp add: dropWhile_fix)
  from False l have 2: "dropWhile isspace (rev s) = rev s"
    by (intro dropWhile_fix) (simp add: hd_rev)
  show ?thesis by (simp add: strip_def 1 2)
qed

lemma strip_idem: "strip (strip s) = strip s"
  by (rule strip_fix) (rule strip_ends)

lemma set_strip: "set (strip s) \<subseteq> set s"
proof -
  have "set (strip s) = set (dropWhile isspace (rev (dropWhile isspace s)))"
    by (simp add: strip_def)
  also have "\<dots> \<subseteq> set (rev (dropWhile isspace s))" by (rule set_dropWhileD[THEN subsetI]) 
  also have "\<dots> \<subseteq> set s" by (auto dest: set_dropWhileD)
  finally show ?thesis .
qed

lemma str_find_single:
  "str_find [c] s =
     (if c \<in> set s then Some (takeWhile (\<lambda>x. x \<noteq> c) s, tl (dropWhile (\<lambda>x. x \<noteq> c) s)) else None)"
  by (induction s) auto

lemma splits_single_hd:
  "\<exists>r. splits [c] None s = takeWhile (\<lambda>x. x \<noteq> c) s # r"
proof (cases "c \<in> set s")
  case True
  then have "str_find [c] s = Some (takeWhile (\<lambda>x. x \<noteq> c) s, tl (dropWhile (\<lambda>x. x \<noteq> c) s))"
    by (simp add: str_find_single)
  then have "splits [c] None s
      = takeWhile (\<lambda>x. x \<noteq> c) s # splits [c] None (tl (dropWhile (\<lambda>x. x \<noteq> c) s))"
    by (intro splits_cut) simp_all
  then show ?thesis by (rule exI)
next
  case False
  then have "\<not> str_contains [c] s" by (simp add: str_contains_def str_find_single)
  then have 1: "splits [c] None s = [s]" by (rule splits_absent)
  from False have 2: "takeWhile (\<lambda>x. x \<noteq> c) s = s"
    by (intro takeWhile_eq_all_conv[THEN iffD2]) auto
  have "splits [c] None s = takeWhile (\<lambda>x. x \<noteq> c) s # []"
    by (simp only: 1 2)
  then show ?thesis by (rule exI)
qed

lemma filter_takeWhile_ne: "filter (\<lambda>x. x \<noteq> c) (takeWhile (\<lambda>x. x \<noteq> c) s) = takeWhile (\<lambda>x. x \<noteq> c) s"
  by (induction s) auto

lemma filter_cut_ne:
  "c \<in> set s \<Longrightarrow> filter (\<lambda>x. x \<noteq> c) s
     = takeWhile (\<lambda>x. x \<noteq> c) s @ filter (\<lambda>x. x \<noteq> c) (tl (dropWhile (\<lambda>x. x \<noteq> c) s))"
  by (induction s) auto

lemma length_tl_dropWhile: "c \<in> set s \<Longrightarrow> length (tl (dropWhile (\<lambda>x. x \<noteq> c) s)) < length s"
  by (induction s) auto

lemma join_nil_Cons: "join [] (x # xs) = x @ join [] xs"
  by (cases xs) auto

lemma join_splits_single: "join [] (splits [c] None s) = filter (\<lambda>x. x \<noteq> c) s"
proof (induction "length s" arbitrary: s rule: less_induct)
  case less
  show ?case
  proof (cases "c \<in> set s")
    case False
    then have "\<not> str_contains [c] s" by (simp add: str_contains_def str_find_single)
    then have 1: "splits [c] None s = [s]" by (rule splits_absent)
    from False have 2: "filter (\<lambda>x. x \<noteq> c) s = s" by (intro filter_True) auto
    show ?thesis by (simp only: 1 2 join.simps)
  next
    case True
    let ?b = "takeWhile (\<lambda>x. x \<noteq> c) s" and ?a = "tl (dropWhile (\<lambda>x. x \<noteq> c) s)"
    from True have f: "str_find [c] s = Some (?b, ?a)" by (simp add: str_find_single)
    have cut: "splits [c] None s = ?b # splits [c] None ?a"
      by (intro splits_cut f) simp
    from True have "length ?a < length s" by (rule length_tl_dropWhile)
    then have IH: "join [] (splits [c] None ?a) = filter (\<lambda>x. x \<noteq> c) ?a" by (rule less)
    show ?thesis
      by (simp only: cut join_nil_Cons IH filter_cut_ne[OF True])
  qed
qed

lemma normalize_specialist_eq:
  "normalize_specialist s =
     Inr (filter (\<lambda>c. c \<noteq> 42) (takeWhile (\<lambda>c. c \<noteq> 10) (strip s)))"
proof -
  obtain r where "splits [10] None (strip s) = takeWhile (\<lambda>c. c \<noteq> 10) (strip s) # r"
    using splits_single_hd[of 10 "strip s"] by blast
  then show ?thesis
    by (simp add: normalize_specialist_def str_split_def LF_def STAR_def index_def replace_def
        join_splits_single)
qed

section \<open>Facts about the response parser\<close>

lemma sublist_trans': "sublist xs ys \<Longrightarrow> sublist ys zs \<Longrightarrow> sublist xs zs"
  by (rule sublist_order.order_trans)

lemma sublist_after: "sublist a (b @ sep @ a)"
  unfolding sublist_def by (rule exI[of _ "b @ sep"], rule exI[of _ "[]"]) simp

lemma str_contains_mono:
  "sublist s t \<Longrightarrow> \<not> str_contains sep t \<Longrightarrow> \<not> str_contains sep s"
  by (auto simp: str_contains_sublist intro: sublist_trans')

lemma splits_hd: "\<exists>h r. splits sep m s = h # r \<and> prefix h s"
proof (cases "sep = [] \<or> m = Some 0")
  case True
  then have "splits sep m s = [s]" by (subst splits.simps) simp
  then show ?thesis by simp
next
  case ne: False
  show ?thesis
  proof (cases "str_find sep s")
    case None
    with ne have "splits sep m s = [s]" by (subst splits.simps) simp
    then show ?thesis by simp
  next
    case (Some ba)
    obtain b a where ba: "ba = (b, a)" by (cases ba)
    from Some ba have "s = b @ sep @ a" by (intro str_find_Some) simp
    then have "prefix b s" by simp
    moreover from ne Some ba
    have "splits sep m s = b # splits sep (map_option (\<lambda>n. n - 1) m) a"
      by (subst splits.simps) simp
    ultimately show ?thesis by blast
  qed
qed

lemma second_piece:
  assumes ne: "sep \<noteq> []" and c: "str_contains sep txt"
  shows "\<exists>pt. index (splits sep None txt) 1 = Inr pt \<and> sublist pt txt"
proof -
  from c obtain b a where f: "str_find sep txt = Some (b, a)"
    by (auto simp: str_contains_def)
  then have t: "txt = b @ sep @ a" by (rule str_find_Some)
  obtain h r where h: "splits sep None a = h # r" "prefix h a"
    using splits_hd[of sep None a] by blast
  from h(2) have "sublist h a" by (rule prefix_imp_sublist)
  moreover have "sublist a txt" unfolding t by (rule sublist_after)
  ultimately have "sublist h txt" by (rule sublist_trans')
  moreover have "index (splits sep None txt) 1 = Inr h"
    using ne f h(1) by (simp add: splits_cut index_def)
  ultimately show ?thesis by blast
qed

lemma SUMMARY_marker: "u ''SUMMARY:'' \<noteq> []" "last (u ''SUMMARY:'') \<notin> set (butlast (u ''SUMMARY:''))"
  by (simp_all add: u_def)

lemma SPECIALIST_marker: "u ''SPECIALIST:'' \<noteq> []"
  "last (u ''SPECIALIST:'') \<notin> set (butlast (u ''SPECIALIST:''))"
  by (simp_all add: u_def)

lemma ADVICE_marker: "u ''ADVICE:'' \<noteq> []" "last (u ''ADVICE:'') \<notin> set (butlast (u ''ADVICE:''))"
  by (simp_all add: u_def)

lemma parse_fields_no_summary:
  "\<not> str_contains (u ''SUMMARY:'') txt \<Longrightarrow>
   parse_fields txt =
     Inr (u ''Report Analyzed.'', u ''General Physician'', u ''Consultation recommended.'')"
  by (simp add: parse_fields_def)

lemma parse_fields_no_specialist:
  assumes s: "str_contains (u ''SUMMARY:'') txt" and n: "\<not> str_contains (u ''SPECIALIST:'') txt"
  shows "parse_fields txt =
     Inr (u ''Report Analyzed.'', u ''General Physician'', u ''Consultation recommended.'')"
proof -
  obtain pt where p: "index (splits (u ''SUMMARY:'') None txt) 1 = Inr pt"
      "sublist pt txt"
    using second_piece[OF SUMMARY_marker(1) s] by blast
  from p(2) n have "\<not> str_contains (u ''SPECIALIST:'') pt" by (rule str_contains_mono)
  with s p(1) show ?thesis
    by (simp add: parse_fields_def str_split_def SUMMARY_marker(1))
qed

lemma parse_fields_no_advice:
  assumes s: "str_contains (u ''SUMMARY:'') txt" and n: "\<not> str_contains (u ''ADVICE:'') txt"
  shows "\<exists>sm. parse_fields txt =
     Inr (sm, u ''General Physician'', u ''Consultation recommended.'')"
proof -
  obtain pt where p: "index (splits (u ''SUMMARY:'') None txt) 1 = Inr pt"
      "sublist pt txt"
    using second_piece[OF SUMMARY_marker(1) s] by blast
  show ?thesis
  proof (cases "str_contains (u ''SPECIALIST:'') pt")
    case False
    with s p(1) show ?thesis
      by (simp add: parse_fields_def str_split_def SUMMARY_marker(1))
  next
    case True
    then obtain sm rs where f: "str_find (u ''SPECIALIST:'') pt = Some (sm, rs)"
      by (auto simp: str_contains_def)
    then have "pt = sm @ u ''SPECIALIST:'' @ rs" by (rule str_find_Some)
    then have "sublist rs pt" by (simp only: sublist_after)
    then have "sublist rs txt" using p(2) by (rule sublist_trans')
    then have na: "\<not> str_contains (u ''ADVICE:'') rs" using n by (rule str_contains_mono)
    have sp: "splits (u ''SPECIALIST:'') (Some (Suc 0)) pt = [sm, rs]"
      using SPECIALIST_marker(1) f by (rule splits_once)
    from s p(1) True na sp show ?thesis
      by (simp add: parse_fields_def str_split_def SUMMARY_marker(1) SPECIALIST_marker(1))
  qed
qed

lemma parse_fields_full:
  assumes P: "\<not> str_contains (u ''SUMMARY:'') P"
    and R: "\<not> str_contains (u ''SUMMARY:'') (X @ u ''SPECIALIST:'' @ Y @ u ''ADVICE:'' @ Z)"
    and X: "\<not> str_contains (u ''SPECIALIST:'') X"
    and Y: "\<not> str_contains (u ''ADVICE:'') Y"
  shows "parse_fields (P @ u ''SUMMARY:'' @ X @ u ''SPECIALIST:'' @ Y @ u ''ADVICE:'' @ Z)
     = Inr (X, Y, Z)"
proof -
  let ?R = "X @ u ''SPECIALIST:'' @ Y @ u ''ADVICE:'' @ Z"
  let ?txt = "P @ u ''SUMMARY:'' @ ?R"
  have f1: "str_find (u ''SUMMARY:'') ?txt = Some (P, ?R)"
    using SUMMARY_marker P by (rule str_find_first)
  then have c1: "str_contains (u ''SUMMARY:'') ?txt" by (simp add: str_contains_def)
  have "splits (u ''SUMMARY:'') None ?txt = P # splits (u ''SUMMARY:'') None ?R"
    using SUMMARY_marker(1) f1 by (rule splits_cut)
  also have "splits (u ''SUMMARY:'') None ?R = [?R]" using R by (rule splits_absent)
  finally have i1: "index (splits (u ''SUMMARY:'') None ?txt) (Suc 0) = Inr ?R"
    by (simp add: index_def)
  have f2: "str_find (u ''SPECIALIST:'') ?R = Some (X, Y @ u ''ADVICE:'' @ Z)"
    using SPECIALIST_marker X by (rule str_find_first)
  then have c2: "str_contains (u ''SPECIALIST:'') ?R" by (simp add: str_contains_def)
  have s2: "splits (u ''SPECIALIST:'') (Some (Suc 0)) ?R = [X, Y @ u ''ADVICE:'' @ Z]"
    using SPECIALIST_marker(1) f2 by (rule splits_once)
  have f3: "str_find (u ''ADVICE:'') (Y @ u ''ADVICE:'' @ Z) = Some (Y, Z)"
    using ADVICE_marker Y by (rule str_find_first)
  then have c3: "str_contains (u ''ADVICE:'') (Y @ u ''ADVICE:'' @ Z)"
    by (simp add: str_contains_def)
  have s3: "splits (u ''ADVICE:'') (Some (Suc 0)) (Y @ u ''ADVICE:'' @ Z) = [Y, Z]"
    using ADVICE_marker(1) f3 by (rule splits_once)
  show ?thesis
    unfolding parse_fields_def Let_def str_split_def
    by (simp only: c1 i1 c2 s2 c3 s3 SUMMARY_marker(1) SPECIALIST_marker(1) ADVICE_marker(1)
        if_True if_False sum.case unpack2.simps prod.case One_nat_def)
qed

lemma normalize_default:
  "normalize_specialist (u ''General Physician'') = Inr (u ''General Physician'')"
  by (simp add: normalize_specialist_eq strip_def isspace_def u_def)

lemma response_parser_eq:
  "parse_fields txt = Inr (sm, sp, ad) \<Longrightarrow>
   response_parser txt =
     Inr (sm, filter (\<lambda>c. c \<noteq> 42) (takeWhile (\<lambda>c. c \<noteq> 10) (strip sp)), ad)"
  by (simp add: response_parser_def normalize_specialist_eq)

lemma sample_text:
  "u ''SUMMARY: Mild fracture SPECIALIST: Orthopedist ADVICE: See a doctor''
     = [] @ u ''SUMMARY:'' @ u '' Mild fracture '' @ u ''SPECIALIST:'' @ u '' Orthopedist ''
        @ u ''ADVICE:'' @ u '' See a doctor''"
  by (simp add: u_def)

lemma sample_fields:
  "parse_fields (u ''SUMMARY: Mild fracture SPECIALIST: Orthopedist ADVICE: See a doctor'')
     = Inr (u '' Mild fracture '', u '' Orthopedist '', u '' See a doctor'')"
  unfolding sample_text
  by (rule parse_fields_full) (simp_all add: str_contains_def u_def)

lemma sample_norm: "filter (\<lambda>c. c \<noteq> 42) (takeWhile (\<lambda>c. c \<noteq> 10) (strip (u '' Orthopedist ''))) = u ''Orthopedist''"
  by (simp add: strip_def isspace_def u_def)

lemma twice_fields:
  "parse_fields (u ''SUMMARY: a SUMMARY: b SPECIALIST: c ADVICE: d'')
     = Inr (u ''Report Analyzed.'', u ''General Physician'', u ''Consultation recommended.'')"
  by (simp add: parse_fields_def str_split_def index_def str_contains_def splits.simps u_def)

lemma normalize_star_space: "normalize_specialist (u ''* a'') = Inr (u '' a'') \<and> normalize_specialist (u '' a'') = Inr (u ''a'')"
  by (simp add: normalize_specialist_eq strip_def isspace_def u_def)

section \<open>Claims about the response parser\<close>

text \<open>C1, as amended. When the text is \<open>P SUMMARY: X SPECIALIST: Y ADVICE: Z\<close>, where
  \<open>SUMMARY:\<close> occurs neither in \<open>P\<close> nor after its first occurrence, \<open>SPECIALIST:\<close> does
  not occur in \<open>X\<close> and \<open>ADVICE:\<close> does not occur in \<open>Y\<close>, the parser returns \<open>X\<close> as the
  summary and \<open>Z\<close> as the advice, both verbatim with their surrounding white space, and
  as the specialist \<open>Y\<close> trimmed, cut at its first line feed and freed of asterisks,
  which is what the normalisation of line 226 computes for \<open>Y\<close>.\<close>

theorem parser_full_protocol:
  assumes "\<not> str_contains (u ''SUMMARY:'') P"
    and "\<not> str_contains (u ''SUMMARY:'') (X @ u ''SPECIALIST:'' @ Y @ u ''ADVICE:'' @ Z)"
    and "\<not> str_contains (u ''SPECIALIST:'') X"
    and "\<not> str_contains (u ''ADVICE:'') Y"
  shows "response_parser (P @ u ''SUMMARY:'' @ X @ u ''SPECIALIST:'' @ Y @ u ''ADVICE:'' @ Z)
           = Inr (X, filter (\<lambda>c. c \<noteq> 42) (takeWhile (\<lambda>c. c \<noteq> 10) (strip Y)), Z)
         \<and> normalize_specialist Y
           = Inr (filter (\<lambda>c. c \<noteq> 42) (takeWhile (\<lambda>c. c \<noteq> 10) (strip Y)))"
proof
  have "parse_fields (P @ u ''SUMMARY:'' @ X @ u ''SPECIALIST:'' @ Y @ u ''ADVICE:'' @ Z)
          = Inr (X, Y, Z)"
    using assms by (rule parse_fields_full)
  then show "response_parser (P @ u ''SUMMARY:'' @ X @ u ''SPECIALIST:'' @ Y @ u ''ADVICE:'' @ Z)
           = Inr (X, filter (\<lambda>c. c \<noteq> 42) (takeWhile (\<lambda>c. c \<noteq> 10) (strip Y)), Z)"
    by (rule response_parser_eq)
next
  show "normalize_specialist Y
           = Inr (filter (\<lambda>c. c \<noteq> 42) (takeWhile (\<lambda>c. c \<noteq> 10) (strip Y)))"
    by (rule normalize_specialist_eq)
qed

theorem parser_full_protocol_witness:
  "\<not> str_contains (u ''SUMMARY:'') []
   \<and> \<not> str_contains (u ''SUMMARY:'')
         (u '' Mild fracture '' @ u ''SPECIALIST:'' @ u '' Orthopedist '' @ u ''ADVICE:''
            @ u '' See a doctor'')
   \<and> \<not> str_contains (u ''SPECIALIST:'') (u '' Mild fracture '')
   \<and> \<not> str_contains (u ''ADVICE:'') (u '' Orthopedist '')
   \<and> response_parser
         (u ''SUMMARY: Mild fracture SPECIALIST: Orthopedist ADVICE: See a doctor'')
       = Inr (u '' Mild fracture '', u ''Orthopedist'', u '' See a doctor'')"
proof -
  have h1: "\<not> str_contains (u ''SUMMARY:'') ([] :: str)"
    by (simp add: str_contains_def u_def)
  have h2: "\<not> str_contains (u ''SUMMARY:'')
         (u '' Mild fracture '' @ u ''SPECIALIST:'' @ u '' Orthopedist '' @ u ''ADVICE:''
            @ u '' See a doctor'')"
    by (simp add: str_contains_def u_def)
  have h3: "\<not> str_contains (u ''SPECIALIST:'') (u '' Mild fracture '')"
    by (simp add: str_contains_def u_def)
  have h4: "\<not> str_contains (u ''ADVICE:'') (u '' Orthopedist '')"
    by (simp add: str_contains_def u_def)
  have "response_parser
         (u ''SUMMARY: Mild fracture SPECIALIST: Orthopedist ADVICE: See a doctor'')
       = Inr (u '' Mild fracture '', u ''Orthopedist'', u '' See a doctor'')"
    using parser_full_protocol [OF h1 h2 h3 h4, THEN conjunct1]
    by (simp only: sample_text [symmetric] sample_norm)
  with h1 h2 h3 h4 show ?thesis by (intro conjI)
qed

theorem parser_full_protocol_counterexample:
  "response_parser (u ''SUMMARY: Mild fracture SPECIALIST: Orthopedist ADVICE: See a doctor'')
     = Inr (u '' Mild fracture '', u ''Orthopedist'', u '' See a doctor'')
   \<and> response_parser
         (u ''SUMMARY: Mild fracture SPECIALIST: Orthopedist ADVICE: See a doctor'')
     \<noteq> Inr (u ''Mild fracture'', u ''Orthopedist'', u ''See a doctor'')
   \<and> response_parser (u ''SUMMARY: a SUMMARY: b SPECIALIST: c ADVICE: d'')
     = Inr (u ''Report Analyzed.'', u ''General Physician'', u ''Consultation recommended.'')"
proof -
  have 1: "response_parser
         (u ''SUMMARY: Mild fracture SPECIALIST: Orthopedist ADVICE: See a doctor'')
     = Inr (u '' Mild fracture '', u ''Orthopedist'', u '' See a doctor'')"
    using response_parser_eq [OF sample_fields] by (simp only: sample_norm)
  have 2: "u '' Mild fracture '' \<noteq> u ''Mild fracture''" by (simp add: u_def)
  have 3: "response_parser (u ''SUMMARY: a SUMMARY: b SPECIALIST: c ADVICE: d'')
     = Inr (u ''Report Analyzed.'', u ''General Physician'', u ''Consultation recommended.'')"
    by (simp add: response_parser_def twice_fields normalize_default)
  from 2 have "Inr (u '' Mild fracture '', u ''Orthopedist'', u '' See a doctor'')
      \<noteq> (Inr (u ''Mild fracture'', u ''Orthopedist'', u ''See a doctor'') :: exn + _)"
    by (simp only: sum.inject prod.inject) simp
  with 1 3 show ?thesis by (simp only:) simp
qed

text \<open>C2, as amended. For every text that contains \<open>SUMMARY:\<close> but not \<open>SPECIALIST:\<close>, the
  parser returns the three defaults: the text after \<open>SUMMARY:\<close> is not taken as the
  summary, which stays \<open>Report Analyzed.\<close>.\<close>

theorem parser_without_specialist:
  assumes "str_contains (u ''SUMMARY:'') txt" and "\<not> str_contains (u ''SPECIALIST:'') txt"
  shows "response_parser txt
           = Inr (u ''Report Analyzed.'', u ''General Physician'',
                  u ''Consultation recommended.'')"
  using parse_fields_no_specialist [OF assms]
  by (simp add: response_parser_def normalize_default)

theorem parser_without_specialist_witness:
  "str_contains (u ''SUMMARY:'') (u ''SUMMARY: Mild fracture'')
   \<and> \<not> str_contains (u ''SPECIALIST:'') (u ''SUMMARY: Mild fracture'')
   \<and> response_parser (u ''SUMMARY: Mild fracture'')
       = Inr (u ''Report Analyzed.'', u ''General Physician'', u ''Consultation recommended.'')"
proof -
  have h1: "str_contains (u ''SUMMARY:'') (u ''SUMMARY: Mild fracture'')"
    by (simp add: str_contains_def u_def)
  have h2: "\<not> str_contains (u ''SPECIALIST:'') (u ''SUMMARY: Mild fracture'')"
    by (simp add: str_contains_def u_def)
  from h1 h2 parser_without_specialist [OF h1 h2] show ?thesis by (intro conjI)
qed

theorem parser_without_specialist_counterexample:
  "str_contains (u ''SUMMARY:'') (u ''SUMMARY: Mild fracture'')
   \<and> \<not> str_contains (u ''SPECIALIST:'') (u ''SUMMARY: Mild fracture'')
   \<and> response_parser (u ''SUMMARY: Mild fracture'')
       \<noteq> Inr (u '' Mild fracture'', u ''General Physician'', u ''Consultation recommended.'')
   \<and> response_parser (u ''SUMMARY: Mild fracture'')
       \<noteq> Inr (u ''Mild fracture'', u ''General Physician'', u ''Consultation recommended.'')"
proof -
  have h1: "str_contains (u ''SUMMARY:'') (u ''SUMMARY: Mild fracture'')"
    by (simp add: str_contains_def u_def)
  have h2: "\<not> str_contains (u ''SPECIALIST:'') (u ''SUMMARY: Mild fracture'')"
    by (simp add: str_contains_def u_def)
  have r: "response_parser (u ''SUMMARY: Mild fracture'')
       = Inr (u ''Report Analyzed.'', u ''General Physician'', u ''Consultation recommended.'')"
    using parse_fields_no_specialist [OF h1 h2]
    by (simp add: response_parser_def normalize_default)
  have d: "u ''Report Analyzed.'' \<noteq> u '' Mild fracture''"
    "u ''Report Analyzed.'' \<noteq> u ''Mild fracture''"
    by (simp_all add: u_def)
  show ?thesis
    unfolding r using h1 h2 d by (simp only: sum.inject prod.inject simp_thms)
qed

text \<open>C3, as amended. For every text that contains \<open>SUMMARY:\<close> and \<open>SPECIALIST:\<close> but not
  \<open>ADVICE:\<close>, the specialist and the advice both keep their defaults, \<open>General Physician\<close>
  and \<open>Consultation recommended.\<close>: the text after \<open>SPECIALIST:\<close> is not taken.\<close>

theorem parser_without_advice:
  assumes "str_contains (u ''SUMMARY:'') txt" and "str_contains (u ''SPECIALIST:'') txt"
    and "\<not> str_contains (u ''ADVICE:'') txt"
  shows "\<exists>sm. response_parser txt
           = Inr (sm, u ''General Physician'', u ''Consultation recommended.'')"
proof -
  from parse_fields_no_advice [OF assms(1) assms(3)]
  obtain sm where "parse_fields txt
      = Inr (sm, u ''General Physician'', u ''Consultation recommended.'')" ..
  then have "response_parser txt
      = Inr (sm, u ''General Physician'', u ''Consultation recommended.'')"
    by (simp add: response_parser_def normalize_default)
  then show ?thesis by (rule exI [where x = sm])
qed

theorem parser_without_advice_witness:
  "str_contains (u ''SUMMARY:'') (u ''SUMMARY: x SPECIALIST: Cardiologist'')
   \<and> str_contains (u ''SPECIALIST:'') (u ''SUMMARY: x SPECIALIST: Cardiologist'')
   \<and> \<not> str_contains (u ''ADVICE:'') (u ''SUMMARY: x SPECIALIST: Cardiologist'')
   \<and> (\<exists>sm. response_parser (u ''SUMMARY: x SPECIALIST: Cardiologist'')
         = Inr (sm, u ''General Physician'', u ''Consultation recommended.''))"
proof -
  have h1: "str_contains (u ''SUMMARY:'') (u ''SUMMARY: x SPECIALIST: Cardiologist'')"
    by (simp add: str_contains_def u_def)
  have h2: "str_contains (u ''SPECIALIST:'') (u ''SUMMARY: x SPECIALIST: Cardiologist'')"
    by (simp add: str_contains_def u_def)
  have h3: "\<not> str_contains (u ''ADVICE:'') (u ''SUMMARY: x SPECIALIST: Cardiologist'')"
    by (simp add: str_contains_def u_def)
  from h1 h2 h3 parser_without_advice [OF h1 h2 h3] show ?thesis by (intro conjI)
qed

theorem parser_without_advice_counterexample:
  "str_contains (u ''SUMMARY:'') (u ''SUMMARY: x SPECIALIST: Cardiologist'')
   \<and> str_contains (u ''SPECIALIST:'') (u ''SUMMARY: x SPECIALIST: Cardiologist'')
   \<and> \<not> str_contains (u ''ADVICE:'') (u ''SUMMARY: x SPECIALIST: Cardiologist'')
   \<and> response_parser (u ''SUMMARY: x SPECIALIST: Cardiologist'')
       = Inr (u '' x '', u ''General Physician'', u ''Consultation recommended.'')
   \<and> u ''General Physician'' \<noteq> u ''Cardiologist''"
proof -
  have h1: "str_contains (u ''SUMMARY:'') (u ''SUMMARY: x SPECIALIST: Cardiologist'')"
    by (simp add: str_contains_def u_def)
  have h2: "str_contains (u ''SPECIALIST:'') (u ''SUMMARY: x SPECIALIST: Cardiologist'')"
    by (simp add: str_contains_def u_def)
  have h3: "\<not> str_contains (u ''ADVICE:'') (u ''SUMMARY: x SPECIALIST: Cardiologist'')"
    by (simp add: str_contains_def u_def)
  have "parse_fields (u ''SUMMARY: x SPECIALIST: Cardiologist'')
      = Inr (u '' x '', u ''General Physician'', u ''Consultation recommended.'')"
    by (simp add: parse_fields_def str_split_def index_def str_contains_def splits.simps u_def)
  then have r: "response_parser (u ''SUMMARY: x SPECIALIST: Cardiologist'')
      = Inr (u '' x '', u ''General Physician'', u ''Consultation recommended.'')"
    by (simp add: response_parser_def normalize_default)
  have d: "u ''General Physician'' \<noteq> u ''Cardiologist''" by (simp add: u_def)
  from h1 h2 h3 r d show ?thesis by (intro conjI)
qed

text \<open>C9, as amended. The specialist normalisation never raises, and normalising an
  already normalised string only trims it: for the result \<open>r\<close> of normalising \<open>s\<close>, the
  normalisation of \<open>r\<close> is \<open>r\<close> stripped of its leading and trailing white space, and
  that string is a fixed point.\<close>

theorem normalize_specialist_twice:
  "\<exists>r. normalize_specialist s = Inr r
       \<and> normalize_specialist r = Inr (strip r)
       \<and> normalize_specialist (strip r) = Inr (strip r)"
proof -
  let ?r = "filter (\<lambda>c. c \<noteq> 42) (takeWhile (\<lambda>c. c \<noteq> 10) (strip s))"
  have r: "normalize_specialist s = Inr ?r" by (rule normalize_specialist_eq)
  have clean: "filter (\<lambda>c. c \<noteq> 42) (takeWhile (\<lambda>c. c \<noteq> 10) t) = t"
    if "set t \<subseteq> set ?r" for t
  proof -
    have "10 \<notin> set ?r"
      using set_takeWhileD [of 10 "\<lambda>c. c \<noteq> 10" "strip s"] by auto
    moreover have "42 \<notin> set ?r" by simp
    ultimately have "10 \<notin> set t" "42 \<notin> set t" using that by auto
    then have "takeWhile (\<lambda>c. c \<noteq> 10) t = t" "filter (\<lambda>c. c \<noteq> 42) t = t"
      by (auto intro: takeWhile_eq_all_conv[THEN iffD2] filter_True)
    then show ?thesis by (simp only:)
  qed
  have 1: "normalize_specialist ?r = Inr (strip ?r)"
    using clean [OF set_strip] by (simp add: normalize_specialist_eq)
  have "set (strip (strip ?r)) \<subseteq> set ?r" unfolding strip_idem by (rule set_strip)
  then have 2: "normalize_specialist (strip ?r) = Inr (strip ?r)"
    using clean [of "strip (strip ?r)"] by (simp add: normalize_specialist_eq strip_idem)
  from r 1 2 show ?thesis by (intro exI conjI)
qed

theorem normalize_specialist_idempotent_counterexample:
  "normalize_specialist (u ''* a'') = Inr (u '' a'')
   \<and> normalize_specialist (u '' a'') = Inr (u ''a'')
   \<and> u '' a'' \<noteq> u ''a''"
proof -
  have "u '' a'' \<noteq> u ''a''" by (simp add: u_def)
  then show ?thesis
    by (intro conjI conjunct1 [OF normalize_star_space] conjunct2 [OF normalize_star_space])
qed

section \<open>Facts about the handlers\<close>

lemma admin_dashboard_no_secret:
  "authenticated s \<noteq> Some True \<Longrightarrow>
   authenticated (fst (admin_dashboard None inp w s)) \<noteq> Some True"
  by (cases "authenticated s")
    (auto simp: admin_dashboard_def check_auth_def login_screen_def logout_def Let_def)

lemma admin_runs_no_secret:
  "authenticated s \<noteq> Some True \<Longrightarrow>
   authenticated (admin_runs None w inps s) \<noteq> Some True"
proof (induction inps arbitrary: s)
  case Nil
  then show ?case by simp
next
  case (Cons inp inps)
  from Cons.prems have "authenticated (fst (admin_dashboard None inp w s)) \<noteq> Some True"
    by (rule admin_dashboard_no_secret)
  then show ?case by (simp add: Cons.IH)
qed

lemma admin_secret_name:
  "u ''projects/'' @ PROJECT_ID @ u ''/secrets/'' @ u ''app-admin-password''
     @ u ''/versions/latest''
   = u ''projects/bnb-marathon-2025-478707/secrets/app-admin-password/versions/latest''"
  by (simp add: PROJECT_ID_def u_def)

lemma get_secret_fails:
  "vault (u ''projects/bnb-marathon-2025-478707/secrets/app-admin-password/versions/latest'')
     = Inl e \<Longrightarrow>
   get_secret vault (u ''app-admin-password'')
     = (None, [Error (u ''Security Error: Could not fetch '' @ u ''app-admin-password''
                      @ u ''. Check IAM permissions.'')])"
  unfolding get_secret_def Let_def admin_secret_name by simp

text \<open>Whatever the database and the report composer do, a failing calendar write changes
  nothing but the calendar and the log: the exception that leaves tab 2, the
  appointments, the bucket and every other effect are those of the same run with a
  successful write.\<close>

lemma calendar_failure_only_affects_calendar:
  assumes "calendar_outcome ev = Inl e"
  shows "snd (snd (tab2 ev cal s f w))
           = snd (snd (tab2 (ev\<lparr>calendar_outcome := Inr l\<rparr>) cal s f w))
       \<and> appointments (fst (tab2 ev cal s f w))
           = appointments (fst (tab2 (ev\<lparr>calendar_outcome := Inr l\<rparr>) cal s f w))
       \<and> bucket (fst (tab2 ev cal s f w))
           = bucket (fst (tab2 (ev\<lparr>calendar_outcome := Inr l\<rparr>) cal s f w))
       \<and> filter (\<lambda>x. x \<noteq> LogErrorOf e) (fst (snd (tab2 ev cal s f w)))
           = filter (\<lambda>x. x \<noteq> LogErrorOf e)
               (fst (snd (tab2 (ev\<lparr>calendar_outcome := Inr l\<rparr>) cal s f w)))"
  using assms
  by (simp add: tab2_def booking_submit_def block_hospital_calendar_def
      create_professional_pdf_def Let_def split: option.splits)

section \<open>Claims about the admin login\<close>

text \<open>C10. When the vault fails on the admin password's resource name, \<open>get_secret\<close>
  returns \<open>None\<close>; with that value as \<open>ADMIN_PASSWORD\<close>, the login screen leaves the
  \<open>authenticated\<close> key untouched for every entered string, answers a pressed button with
  \<open>Access Denied\<close> and raises nothing, and no sequence of admin script runs that starts
  unauthenticated ever sets the key to true.\<close>

theorem login_denied_without_secret:
  assumes "vault (u ''projects/bnb-marathon-2025-478707/secrets/app-admin-password/versions/latest'')
             = Inl e"
  shows "fst (get_secret vault (u ''app-admin-password'')) = None
       \<and> login_screen (fst (get_secret vault (u ''app-admin-password''))) pwd True s
           = (s, [Markdown (u ''### '' @ [128737, 65039] @ u '' Admin Portal Access''),
                  Error (u ''Access Denied'')])
       \<and> fst (login_screen (fst (get_secret vault (u ''app-admin-password''))) pwd clicked s) = s
       \<and> (authenticated s \<noteq> Some True \<longrightarrow>
            authenticated (admin_runs (fst (get_secret vault (u ''app-admin-password''))) w inps s)
              \<noteq> Some True)"
proof -
  have n: "fst (get_secret vault (u ''app-admin-password'')) = None"
    using get_secret_fails [where vault = vault and e = e, OF assms] by simp
  show ?thesis
    unfolding n by (simp add: login_screen_def Let_def admin_runs_no_secret)
qed

theorem login_denied_without_secret_witness:
  "failing_vault
       (u ''projects/bnb-marathon-2025-478707/secrets/app-admin-password/versions/latest'')
     = Inl (Failure (u ''permission denied''))
   \<and> authenticated initial_session \<noteq> Some True
   \<and> fst (get_secret failing_vault (u ''app-admin-password'')) = None
   \<and> fst (login_screen (fst (get_secret failing_vault (u ''app-admin-password'')))
            [] True initial_session) = initial_session
   \<and> authenticated
        (admin_runs (fst (get_secret failing_vault (u ''app-admin-password'')))
           \<lparr>appointments = [], reports = 0, calendar = [], bucket = []\<rparr>
           [\<lparr>pwd_input = [], authenticate_clicked = True, logout_clicked = False,
             refresh_clicked = False\<rparr>]
           initial_session) \<noteq> Some True"
proof -
  have h: "failing_vault
       (u ''projects/bnb-marathon-2025-478707/secrets/app-admin-password/versions/latest'')
     = Inl (Failure (u ''permission denied''))"
    by (simp add: failing_vault_def)
  have a: "authenticated initial_session \<noteq> Some True"
    by (simp add: initial_session_def)
  note t = login_denied_without_secret [where vault = failing_vault
      and e = "Failure (u ''permission denied'')" and pwd = "[]" and s = initial_session
      and clicked = True
      and w = "\<lparr>appointments = [], reports = 0, calendar = [], bucket = []\<rparr>"
      and inps = "[\<lparr>pwd_input = [], authenticate_clicked = True, logout_clicked = False,
         refresh_clicked = False\<rparr>]", OF h]
  note 1 = t [THEN conjunct1]
  note 2 = t [THEN conjunct2, THEN conjunct2, THEN conjunct1]
  note 3 = t [THEN conjunct2, THEN conjunct2, THEN conjunct2, THEN mp, OF a]
  from h a 1 2 3 show ?thesis by (intro conjI)
qed

text \<open>Every analysis stores its sources with its result: a session reached from the
  initial one through the Process Record handler holds sources whenever it holds an
  analysis.\<close>

lemma process_record_sources:
  assumes "analysis_result s \<noteq> None \<longrightarrow> sources_clean s \<noteq> None"
  shows "analysis_result (fst (process_record ev city s w)) \<noteq> None \<longrightarrow>
         sources_clean (fst (process_record ev city s w)) \<noteq> None"
  using assms
  by (auto simp: process_record_def normalize_specialist_eq Let_def
      split: sum.splits prod.splits)

lemma initial_session_sources:
  "analysis_result initial_session \<noteq> None \<longrightarrow> sources_clean initial_session \<noteq> None"
  by (simp add: initial_session_def)

section \<open>Claims about the booking workflow\<close>

text \<open>C8. While \<open>analysis_result\<close> is \<open>None\<close>, tab 2 only shows the warning
  \<open>Analyze report first.\<close>: the booking form is not rendered, a submission is not
  handled, nothing is written and nothing is raised.\<close>

theorem booking_requires_analysis:
  assumes "analysis_result s = None"
  shows "tab2 ev cal s f w = (w, [Warning (u ''Analyze report first.'')], None)"
  using assms by (simp add: tab2_def truthy_def)

theorem booking_requires_analysis_witness:
  "analysis_result initial_session = None
   \<and> tab2 calendar_down None initial_session filled_form empty_world
       = (empty_world, [Warning (u ''Analyze report first.'')], None)"
proof -
  have h: "analysis_result initial_session = None" by (simp add: initial_session_def)
  from h booking_requires_analysis [OF h] show ?thesis by (intro conjI)
qed

text \<open>C5. A submission whose patient email or doctor name is empty only shows the
  warning \<open>Fill details.\<close>: the world is unchanged (no booking record, no calendar
  event, no PDF), neither \<open>block_hospital_calendar\<close> nor the link generator nor the
  report composer is called, and nothing is raised. The handler has no access to the
  session, which therefore stays as it is.\<close>

theorem booking_validation:
  assumes "p_email f = [] \<or> doc_name f = []"
  shows "booking_submit ev cal s f w = (w, [Warning (u ''Fill details.'')], None)
       \<and> tab2 ev cal s f w
           \<in> {(w, [BookingForm, Warning (u ''Fill details.'')], None),
              (w, [BookingForm], None),
              (w, [Warning (u ''Analyze report first.'')], None)}"
proof -
  have b: "booking_submit ev cal s f w = (w, [Warning (u ''Fill details.'')], None)"
    using assms by (auto simp: booking_submit_def)
  then show ?thesis by (simp add: tab2_def)
qed

theorem booking_validation_witness:
  "(p_email (filled_form\<lparr>p_email := []\<rparr>) = [] \<or> doc_name (filled_form\<lparr>p_email := []\<rparr>) = [])
   \<and> booking_submit calendar_down None analysed_session (filled_form\<lparr>p_email := []\<rparr>) empty_world
       = (empty_world, [Warning (u ''Fill details.'')], None)
   \<and> tab2 calendar_down None analysed_session (filled_form\<lparr>p_email := []\<rparr>) empty_world
       = (empty_world, [BookingForm, Warning (u ''Fill details.'')], None)"
proof -
  have h: "p_email (filled_form\<lparr>p_email := []\<rparr>) = [] \<or> doc_name (filled_form\<lparr>p_email := []\<rparr>) = []"
    by simp
  note t = booking_validation [where f = "filled_form\<lparr>p_email := []\<rparr>" and ev = calendar_down
      and cal = None and s = analysed_session and w = empty_world, OF h]
  have "tab2 calendar_down None analysed_session (filled_form\<lparr>p_email := []\<rparr>) empty_world
       = (empty_world, [BookingForm, Warning (u ''Fill details.'')], None)"
    using t [THEN conjunct1]
    by (simp add: tab2_def truthy_def analysed_session_def filled_form_def u_def)
  with h t [THEN conjunct1] show ?thesis by (intro conjI)
qed

text \<open>C4. For a submitted form with non-empty patient email and doctor name, in a session
  that holds an analysis and its sources, when the calendar write fails and the
  database write and the report generation themselves succeed: the failure is logged,
  the slot message and the personal calendar link are shown, exactly one record with
  status \<open>Confirmed\<close> and the current timestamp is appended to the appointments, the
  confirmation PDF is generated and its download is offered, and nothing is raised. The
  shared calendar is unchanged.\<close>

theorem booking_survives_calendar_failure:
  assumes "submitted f" and "p_email f \<noteq> []" and "doc_name f \<noteq> []"
    and "truthy (analysis_result s)" and "sources_clean s = Some src"
    and "calendar_outcome ev = Inl e" and "db_outcome ev = None" and "pdf_outcome ev = None"
  shows "snd (tab2 ev cal s f w)
           = ([BookingForm, LogErrorOf e,
               Success ([9989] @ u '' Slot Blocked for '' @ doc_name f @ u ''!''),
               CalendarLink (p_email f) (doc_name f) (appt_date f) (appt_time f),
               DownloadButton ([11015, 65039] @ u '' Download Booking Pass'')
                 (u ''/tmp/'' @ u ''Report_'' @ str_nat (now ev) @ u ''.pdf'')], None)
       \<and> appointments (fst (tab2 ev cal s f w))
           = appointments w @
               [\<lparr>patient_email = p_email f, specialist = specialist_type s,
                 doctor_name = doc_name f, status = u ''Confirmed'', timestamp = now ev\<rparr>]
       \<and> calendar (fst (tab2 ev cal s f w)) = calendar w
       \<and> length (bucket (fst (tab2 ev cal s f w))) = length (bucket w) + 1"
proof -
  from assms(4) obtain a where a: "analysis_result s = Some a"
    by (cases "analysis_result s") (simp_all add: truthy_def)
  show ?thesis
    using assms a
    by (simp add: tab2_def booking_submit_def block_hospital_calendar_def
        create_professional_pdf_def Let_def)
qed

theorem booking_survives_calendar_failure_witness:
  "submitted filled_form \<and> p_email filled_form \<noteq> [] \<and> doc_name filled_form \<noteq> []
   \<and> truthy (analysis_result analysed_session)
   \<and> sources_clean analysed_session = Some (u ''Verified via Google.'')
   \<and> calendar_outcome calendar_down = Inl (Failure (u ''calendar unavailable''))
   \<and> db_outcome calendar_down = None \<and> pdf_outcome calendar_down = None
   \<and> appointments (fst (tab2 calendar_down None analysed_session filled_form empty_world))
       = [\<lparr>patient_email = u ''a@x.com'', specialist = u ''Orthopedist'',
           doctor_name = u ''Dr. Rao'', status = u ''Confirmed'', timestamp = 1748750400\<rparr>]
   \<and> snd (tab2 calendar_down None analysed_session filled_form empty_world)
       = ([BookingForm, LogErrorOf (Failure (u ''calendar unavailable'')),
           Success ([9989] @ u '' Slot Blocked for Dr. Rao!''),
           CalendarLink (u ''a@x.com'') (u ''Dr. Rao'') \<lparr>year = 2025, month = 6, day = 1\<rparr>
             \<lparr>hour = 10, minute = 0, second = 0\<rparr>,
           DownloadButton ([11015, 65039] @ u '' Download Booking Pass'')
             (u ''/tmp/Report_1748750400.pdf'')], None)"
proof -
  have h1: "submitted filled_form" and h2: "p_email filled_form \<noteq> []"
    and h3: "doc_name filled_form \<noteq> []"
    by (simp_all add: filled_form_def u_def)
  have h4: "truthy (analysis_result analysed_session)"
    and h5: "sources_clean analysed_session = Some (u ''Verified via Google.'')"
    by (simp_all add: analysed_session_def truthy_def u_def)
  have h6: "calendar_outcome calendar_down = Inl (Failure (u ''calendar unavailable''))"
    and h7: "db_outcome calendar_down = None" and h8: "pdf_outcome calendar_down = None"
    by (simp_all add: calendar_down_def)
  note t = booking_survives_calendar_failure [where w = empty_world and cal = None,
      OF h1 h2 h3 h4 h5 h6 h7 h8]
  have n: "str_nat 1748750400 = u ''1748750400''"
    by (simp add: str_nat.simps u_def)
  have r: "appointments (fst (tab2 calendar_down None analysed_session filled_form empty_world))
       = [\<lparr>patient_email = u ''a@x.com'', specialist = u ''Orthopedist'',
           doctor_name = u ''Dr. Rao'', status = u ''Confirmed'', timestamp = 1748750400\<rparr>]"
    using t [THEN conjunct2, THEN conjunct1]
    by (simp add: filled_form_def analysed_session_def calendar_down_def empty_world_def)
  have "now calendar_down = 1748750400" by (simp add: calendar_down_def)
  then have p: "u ''/tmp/'' @ u ''Report_'' @ str_nat (now calendar_down) @ u ''.pdf''
      = u ''/tmp/Report_1748750400.pdf''"
    by (simp add: n) (simp add: u_def)
  have e: "snd (tab2 calendar_down None analysed_session filled_form empty_world)
       = ([BookingForm, LogErrorOf (Failure (u ''calendar unavailable'')),
           Success ([9989] @ u '' Slot Blocked for Dr. Rao!''),
           CalendarLink (u ''a@x.com'') (u ''Dr. Rao'') \<lparr>year = 2025, month = 6, day = 1\<rparr>
             \<lparr>hour = 10, minute = 0, second = 0\<rparr>,
           DownloadButton ([11015, 65039] @ u '' Download Booking Pass'')
             (u ''/tmp/Report_1748750400.pdf'')], None)"
    using t [THEN conjunct1] unfolding p
    by (simp add: filled_form_def) (simp add: u_def)
  from h1 h2 h3 h4 h5 h6 h7 h8 r e show ?thesis by (intro conjI)
qed

text \<open>C6, the failing input. With the upload down, \<open>create_professional_pdf\<close> returns
  its failure pair and tab 1 just leaves out the download button; tab 2 persists the
  booking record and then raises \<open>TypeError\<close> out of the script run, because
  \<open>open(path, "rb")\<close> is reached with \<open>path = None\<close>.\<close>

theorem booking_pass_without_pdf_raises:
  "fst (create_professional_pdf upload_down (Some (u '' Mild fracture ''))
          (u '' See a doctor'') (Some (u ''Verified via Google.'')) None empty_world)
     = Inl (Failure (u ''upload failed''))
   \<and> snd (snd (process_record upload_down (u ''Hyderabad'') initial_session empty_world))
     = [Success (u ''Analysis Complete. Recommended:  Orthopedist ''),
        Markdown (u '' Mild fracture '')]
   \<and> snd (tab2 upload_down None analysed_session filled_form empty_world)
     = ([BookingForm, Success ([9989] @ u '' Slot Blocked for Dr. Rao!''),
         CalendarLink (u ''a@x.com'') (u ''Dr. Rao'') \<lparr>year = 2025, month = 6, day = 1\<rparr>
           \<lparr>hour = 10, minute = 0, second = 0\<rparr>],
        Some TypeError)
   \<and> appointments (fst (tab2 upload_down None analysed_session filled_form empty_world))
     = [\<lparr>patient_email = u ''a@x.com'', specialist = u ''Orthopedist'',
         doctor_name = u ''Dr. Rao'', status = u ''Confirmed'', timestamp = 1748750400\<rparr>]"
proof -
  have 1: "fst (create_professional_pdf upload_down (Some (u '' Mild fracture ''))
          (u '' See a doctor'') (Some (u ''Verified via Google.'')) None empty_world)
     = Inl (Failure (u ''upload failed''))"
    by (simp add: create_professional_pdf_def upload_down_def Let_def)
  have n: "normalize_specialist (u '' Orthopedist '') = Inr (u ''Orthopedist'')"
    by (simp only: normalize_specialist_eq sample_norm)
  have "snd (snd (process_record upload_down (u ''Hyderabad'') initial_session empty_world))
     = [Success (u ''Analysis Complete. Recommended: '' @ u '' Orthopedist ''),
        Markdown (u '' Mild fracture '')]"
    by (simp add: process_record_def upload_down_def get_clean_text_def sample_fields n
        create_professional_pdf_def Let_def)
  then have 2: "snd (snd (process_record upload_down (u ''Hyderabad'') initial_session empty_world))
     = [Success (u ''Analysis Complete. Recommended:  Orthopedist ''),
        Markdown (u '' Mild fracture '')]"
    by (simp add: u_def)
  have 3: "snd (tab2 upload_down None analysed_session filled_form empty_world)
     = ([BookingForm, Success ([9989] @ u '' Slot Blocked for Dr. Rao!''),
         CalendarLink (u ''a@x.com'') (u ''Dr. Rao'') \<lparr>year = 2025, month = 6, day = 1\<rparr>
           \<lparr>hour = 10, minute = 0, second = 0\<rparr>],
        Some TypeError)"
    by (simp add: tab2_def booking_submit_def block_hospital_calendar_def
        create_professional_pdf_def Let_def truthy_def upload_down_def analysed_session_def
        filled_form_def empty_world_def u_def)
  have 4: "appointments (fst (tab2 upload_down None analysed_session filled_form empty_world))
     = [\<lparr>patient_email = u ''a@x.com'', specialist = u ''Orthopedist'',
         doctor_name = u ''Dr. Rao'', status = u ''Confirmed'', timestamp = 1748750400\<rparr>]"
    by (simp add: tab2_def booking_submit_def block_hospital_calendar_def
        create_professional_pdf_def Let_def truthy_def upload_down_def analysed_session_def
        filled_form_def empty_world_def u_def)
  from 1 2 3 4 show ?thesis by (intro conjI)
qed

section \<open>Claims about the grounding sources\<close>

text \<open>C7, as amended. The sources statement never lets an exception out, and whenever
  the access to the grounding chunks fails (no candidate, absent or malformed metadata)
  or yields no chunks, the sources are the literal \<open>Verified via Google.\<close>\<close>

theorem sources_fall_back:
  assumes "chunks_of r = Inl e \<or> chunks_of r = Inr []"
  shows "fst (sources_block r') = None
       \<and> sources_block r = (None, u ''Verified via Google.'')"
proof
  show "fst (sources_block r') = None"
    by (cases "sources_body r' (u ''Verified via Google.'')")
      (auto simp: sources_block_def split: option.splits)
next
  from assms show "sources_block r = (None, u ''Verified via Google.'')"
    by (auto simp: sources_block_def sources_body_def)
qed

theorem sources_fall_back_witness:
  "(chunks_of \<lparr>text_attr = Inr [], candidates = []\<rparr> = Inl IndexError
      \<or> chunks_of \<lparr>text_attr = Inr [], candidates = []\<rparr> = Inr [])
   \<and> fst (sources_block malformed_chunk_response) = None
   \<and> sources_block \<lparr>text_attr = Inr [], candidates = []\<rparr> = (None, u ''Verified via Google.'')"
proof -
  have h: "chunks_of \<lparr>text_attr = Inr [], candidates = []\<rparr> = Inl IndexError
      \<or> chunks_of \<lparr>text_attr = Inr [], candidates = []\<rparr> = Inr []"
    by (simp add: chunks_of_def)
  note t = sources_fall_back [where r' = malformed_chunk_response, OF h]
  from h t [THEN conjunct1] t [THEN conjunct2] show ?thesis by (intro conjI)
qed

theorem sources_fall_back_counterexample:
  "sources_block malformed_chunk_response = (None, [])
   \<and> sources_block half_formatted_response = (None, u ''1. WHO: https://who.int'' @ LF)
   \<and> [] \<noteq> u ''Verified via Google.''
   \<and> u ''1. WHO: https://who.int'' @ LF \<noteq> u ''Verified via Google.''"
  by (simp add: sources_block_def sources_body_def chunks_of_def malformed_chunk_response_def
      half_formatted_response_def str_nat.simps LF_def u_def)

end
